theory Spec2Isabelle
  imports Main "HOL-Library.AList" "HOL-Library.Char_ord" "HOL-Library.List_Lexorder"
begin

section \<open>Permission requests of the SASB project (src/permission_request.py)\<close>

subsection \<open>Enumerations and the request record\<close>

datatype PermissionStatus = PENDING | GRANTED | DENIED | REVOKED

datatype DataSource = WORLD_BANK_API | OPENAQ_KAGGLE | CUSTOM

text \<open>The \<^verbatim>\<open>.value\<close> of each enumeration member.\<close>

fun status_value :: "PermissionStatus \<Rightarrow> string" where
  "status_value PENDING = ''pending''"
| "status_value GRANTED = ''granted''"
| "status_value DENIED = ''denied''"
| "status_value REVOKED = ''revoked''"

fun source_value :: "DataSource \<Rightarrow> string" where
  "source_value WORLD_BANK_API = ''world_bank_api''"
| "source_value OPENAQ_KAGGLE = ''openaq_kaggle''"
| "source_value CUSTOM = ''custom''"

text \<open>
  The dataclass \<^verbatim>\<open>PermissionRequest\<close>, with the field types of its annotations.
  Timestamps are the strings that \<^verbatim>\<open>datetime.now(timezone.utc).isoformat()\<close> returns;
  they are compared as Python compares strings, character by character, which for
  ISO timestamps of one offset is the order of the instants.
\<close>

record PermissionRequest =
  request_id :: string
  requester :: string
  data_source :: DataSource
  purpose :: string
  status :: PermissionStatus
  created_at :: string
  updated_at :: string
  granted_by :: "string option"
  "notes" :: "string option"

subsection \<open>Exceptions and outcomes\<close>

text \<open>
  The exceptions the module raises or lets through. \<^verbatim>\<open>KeyError\<close> and \<^verbatim>\<open>ValueError\<close>
  carry the message where the module builds it with an f-string; where the library
  raises them (a missing dictionary key, an enumeration lookup) the argument is the key
  or the name of the enumeration. \<^verbatim>\<open>JSONDecodeError\<close> is what \<^verbatim>\<open>json.loads\<close> raises.
\<close>

datatype py_exception =
    KeyError string
  | ValueError string
  | TypeError
  | AttributeError
  | JSONDecodeError

text \<open>
  Loading builds requests from untyped JSON. Python's dataclass constructor does not
  check annotations, so it also accepts, say, a number as \<^verbatim>\<open>request_id\<close>; such an
  object has no counterpart in the typed record and the outcome \<open>IllTyped\<close> marks that
  the model says nothing about the run.
\<close>

datatype 'a outcome = Returns 'a | Raises py_exception | IllTyped

datatype log_level = INFO | WARNING

subsection \<open>JSON values and the file at \<^verbatim>\<open>storage_path\<close>\<close>

text \<open>
  A JSON value as \<^verbatim>\<open>json.loads\<close> returns it; an object is a Python dictionary, kept as
  an association list in insertion order.
\<close>

datatype json =
    JNull
  | JBool bool
  | JNum int
  | JStr string
  | JArr "json list"
  | JObj "(string \<times> json) list"

text \<open>
  The file is described by what \<^verbatim>\<open>json.loads(read_text())\<close> makes of it: it does not
  exist, its text is not JSON, or its text is the JSON document given. Writing
  \<^verbatim>\<open>json.dumps(data)\<close> leaves the document \<open>data\<close>.
\<close>

datatype store_file = NoFile | Malformed | Json json

record PermissionManager =
  storage :: store_file
  requests :: "(string \<times> PermissionRequest) list"

subsection \<open>Serialisation\<close>

fun opt_json :: "string option \<Rightarrow> json" where
  "opt_json None = JNull"
| "opt_json (Some s) = JStr s"

definition to_dict :: "PermissionRequest \<Rightarrow> (string \<times> json) list" where
  "to_dict r =
     [(''request_id'', JStr (request_id r)),
      (''requester'', JStr (requester r)),
      (''data_source'', JStr (source_value (data_source r))),
      (''purpose'', JStr (purpose r)),
      (''status'', JStr (status_value (status r))),
      (''created_at'', JStr (created_at r)),
      (''updated_at'', JStr (updated_at r)),
      (''granted_by'', opt_json (granted_by r)),
      (''notes'', opt_json (notes r))]"

text \<open>\<^verbatim>\<open>DataSource(x)\<close> and \<^verbatim>\<open>PermissionStatus(x)\<close>: lookup of a member by value.\<close>

definition DataSource_of :: "json \<Rightarrow> py_exception + DataSource" where
  "DataSource_of v =
     (if v = JStr ''world_bank_api'' then Inr WORLD_BANK_API
      else if v = JStr ''openaq_kaggle'' then Inr OPENAQ_KAGGLE
      else if v = JStr ''custom'' then Inr CUSTOM
      else Inl (ValueError ''DataSource''))"

definition PermissionStatus_of :: "json \<Rightarrow> py_exception + PermissionStatus" where
  "PermissionStatus_of v =
     (if v = JStr ''pending'' then Inr PENDING
      else if v = JStr ''granted'' then Inr GRANTED
      else if v = JStr ''denied'' then Inr DENIED
      else if v = JStr ''revoked'' then Inr REVOKED
      else Inl (ValueError ''PermissionStatus''))"

definition field_names :: "string list" where
  "field_names = [''request_id'', ''requester'', ''data_source'', ''purpose'', ''status'',
                  ''created_at'', ''updated_at'', ''granted_by'', ''notes'']"

text \<open>A field annotated \<^verbatim>\<open>str\<close>, with the value of its default factory when the key is missing.\<close>

fun str_field :: "string option \<Rightarrow> json option \<Rightarrow> string option" where
  "str_field dflt None = dflt"
| "str_field dflt (Some (JStr s)) = Some s"
| "str_field dflt (Some _) = None"

text \<open>A field annotated \<^verbatim>\<open>Optional[str]\<close> with default \<^verbatim>\<open>None\<close>.\<close>

fun opt_field :: "json option \<Rightarrow> string option option" where
  "opt_field None = Some None"
| "opt_field (Some JNull) = Some None"
| "opt_field (Some (JStr s)) = Some (Some s)"
| "opt_field (Some _) = None"

text \<open>
  \<^verbatim>\<open>cls(**data)\<close>: an unexpected keyword or a missing required argument is a
  \<^verbatim>\<open>TypeError\<close>; \<open>now_c\<close> and \<open>now_u\<close> are what the default factories of \<^verbatim>\<open>created_at\<close>
  and \<^verbatim>\<open>updated_at\<close> read from the clock when the key is missing.
\<close>

definition construct ::
  "string \<Rightarrow> string \<Rightarrow> (string \<times> json) list \<Rightarrow> DataSource \<Rightarrow> PermissionStatus \<Rightarrow> PermissionRequest outcome" where
  "construct now_c now_u kv ds st =
     (if \<not> list_all (\<lambda>k. k \<in> set field_names) (map fst kv) then Raises TypeError
      else if map_of kv ''request_id'' = None \<or> map_of kv ''requester'' = None
              \<or> map_of kv ''purpose'' = None then Raises TypeError
      else
        (case (str_field None (map_of kv ''request_id''),
               str_field None (map_of kv ''requester''),
               str_field None (map_of kv ''purpose''),
               str_field (Some now_c) (map_of kv ''created_at''),
               str_field (Some now_u) (map_of kv ''updated_at''),
               opt_field (map_of kv ''granted_by''),
               opt_field (map_of kv ''notes'')) of
           (Some i, Some rq, Some p, Some c, Some u, Some g, Some n) \<Rightarrow>
             Returns \<lparr>request_id = i, requester = rq, data_source = ds, purpose = p,
                      status = st, created_at = c, updated_at = u, granted_by = g, notes = n\<rparr>
         | _ \<Rightarrow> IllTyped))"

definition from_dict :: "string \<Rightarrow> string \<Rightarrow> json \<Rightarrow> PermissionRequest outcome" where
  "from_dict now_c now_u data =
     (case data of
        JObj kv \<Rightarrow>
          (case map_of kv ''data_source'' of
             None \<Rightarrow> Raises (KeyError ''data_source'')
           | Some v \<Rightarrow>
               (case DataSource_of v of
                  Inl e \<Rightarrow> Raises e
                | Inr ds \<Rightarrow>
                    (case map_of kv ''status'' of
                       None \<Rightarrow> Raises (KeyError ''status'')
                     | Some w \<Rightarrow>
                         (case PermissionStatus_of w of
                            Inl e \<Rightarrow> Raises e
                          | Inr st \<Rightarrow> construct now_c now_u kv ds st))))
      | _ \<Rightarrow> Raises TypeError)"

subsection \<open>Loading and saving\<close>

text \<open>
  The dictionary comprehension of \<^verbatim>\<open>_load\<close>, entry by entry; \<open>clk k\<close> is the pair of
  clock readings available to the default factories while the entry under \<open>k\<close> is built.
\<close>

fun load_items ::
  "(string \<Rightarrow> string \<times> string) \<Rightarrow> (string \<times> json) list \<Rightarrow> (string \<times> PermissionRequest) list
     \<Rightarrow> (string \<times> PermissionRequest) list outcome" where
  "load_items clk [] acc = Returns acc"
| "load_items clk ((k, v) # kvs) acc =
     (case from_dict (fst (clk k)) (snd (clk k)) v of
        Returns r \<Rightarrow> load_items clk kvs (AList.update k r acc)
      | Raises e \<Rightarrow> Raises e
      | IllTyped \<Rightarrow> IllTyped)"

text \<open>The exceptions named in the \<^verbatim>\<open>except\<close> clause of \<^verbatim>\<open>_load\<close>.\<close>

fun caught :: "py_exception \<Rightarrow> bool" where
  "caught JSONDecodeError = True"
| "caught (KeyError _) = True"
| "caught (ValueError _) = True"
| "caught _ = False"

definition load ::
  "(string \<Rightarrow> string \<times> string) \<Rightarrow> PermissionManager \<Rightarrow> (log_level option \<times> PermissionManager) outcome" where
  "load clk m =
     (case storage m of
        NoFile \<Rightarrow> Returns (None, m)
      | Malformed \<Rightarrow> Returns (Some WARNING, m\<lparr>requests := []\<rparr>)
      | Json data \<Rightarrow>
          (case data of
             JObj kvs \<Rightarrow>
               (case load_items clk kvs [] of
                  Returns d \<Rightarrow> Returns (Some INFO, m\<lparr>requests := d\<rparr>)
                | Raises e \<Rightarrow>
                    if caught e then Returns (Some WARNING, m\<lparr>requests := []\<rparr>) else Raises e
                | IllTyped \<Rightarrow> IllTyped)
           | _ \<Rightarrow> Raises AttributeError))"

text \<open>\<^verbatim>\<open>PermissionManager.__init__\<close> against the file \<open>f\<close>.\<close>

definition PermissionManager_init ::
  "(string \<Rightarrow> string \<times> string) \<Rightarrow> store_file \<Rightarrow> (log_level option \<times> PermissionManager) outcome" where
  "PermissionManager_init clk f = load clk \<lparr>storage = f, requests = []\<rparr>"

definition save :: "PermissionManager \<Rightarrow> PermissionManager" where
  "save m = m\<lparr>storage := Json (JObj (map (\<lambda>(k, v). (k, JObj (to_dict v))) (requests m)))\<rparr>"

subsection \<open>Request identifiers\<close>

definition digit_char :: "nat \<Rightarrow> char" where
  "digit_char d = ''0123456789'' ! d"

fun dec :: "nat \<Rightarrow> string" where
  "dec n = (if n < 10 then [digit_char n] else dec (n div 10) @ [digit_char (n mod 10)])"

declare dec.simps [simp del]

text \<open>The format \<^verbatim>\<open>{count:04d}\<close>: decimal, padded with zeros to at least four characters.\<close>

definition format_04d :: "nat \<Rightarrow> string" where
  "format_04d n = replicate (4 - length (dec n)) CHR ''0'' @ dec n"

text \<open>\<open>stamp\<close> is the clock reading formatted by \<^verbatim>\<open>strftime("%Y%m%d%H%M%S")\<close>.\<close>

definition generate_request_id :: "PermissionManager \<Rightarrow> string \<Rightarrow> string" where
  "generate_request_id m stamp = ''PR-'' @ stamp @ ''-'' @ format_04d (length (requests m) + 1)"

subsection \<open>Operations\<close>

text \<open>
  Every call of \<^verbatim>\<open>datetime.now\<close> is an input of the operation that makes it.
  \<^verbatim>\<open>create_request\<close> reads the clock three times: for the identifier, and once in each
  of the default factories of \<^verbatim>\<open>created_at\<close> and \<^verbatim>\<open>updated_at\<close>.
\<close>

definition create_request ::
  "PermissionManager \<Rightarrow> string \<Rightarrow> DataSource \<Rightarrow> string \<Rightarrow> string option
     \<Rightarrow> string \<Rightarrow> string \<Rightarrow> string \<Rightarrow> PermissionRequest \<times> PermissionManager" where
  "create_request m rq ds p nts stamp now_c now_u =
     (let rid = generate_request_id m stamp;
          request = \<lparr>request_id = rid, requester = rq, data_source = ds, purpose = p,
                     status = PENDING, created_at = now_c, updated_at = now_u,
                     granted_by = None, notes = nts\<rparr>
      in (request, save (m\<lparr>requests := AList.update rid request (requests m)\<rparr>)))"

text \<open>Truth value of an \<^verbatim>\<open>Optional[str]\<close>: \<^verbatim>\<open>None\<close> and the empty string are false.\<close>

fun truthy :: "string option \<Rightarrow> bool" where
  "truthy None = False"
| "truthy (Some s) = (s \<noteq> [])"

text \<open>
  A transition returns the request or raises; the result pairs that with the manager
  after the call. \<open>now\<close> is the clock reading stored in \<^verbatim>\<open>updated_at\<close>. The request is
  changed in place, so it keeps its position in the dictionary.
\<close>

definition grant_permission ::
  "PermissionManager \<Rightarrow> string \<Rightarrow> string \<Rightarrow> string option \<Rightarrow> string
     \<Rightarrow> (py_exception + PermissionRequest) \<times> PermissionManager" where
  "grant_permission m rid actor nts now =
     (case map_of (requests m) rid of
        None \<Rightarrow> (Inl (KeyError (''Permission request '' @ rid @ '' not found'')), m)
      | Some request \<Rightarrow>
          if status request \<noteq> PENDING
          then (Inl (ValueError (''Cannot grant request '' @ rid @ '' - status is ''
                                  @ status_value (status request))), m)
          else
            (let r1 = request\<lparr>status := GRANTED, granted_by := Some actor, updated_at := now\<rparr>;
                 r2 = (if truthy nts then r1\<lparr>notes := nts\<rparr> else r1)
             in (Inr r2, save (m\<lparr>requests := AList.update rid r2 (requests m)\<rparr>))))"

definition deny_permission ::
  "PermissionManager \<Rightarrow> string \<Rightarrow> string \<Rightarrow> string option \<Rightarrow> string
     \<Rightarrow> (py_exception + PermissionRequest) \<times> PermissionManager" where
  "deny_permission m rid actor nts now =
     (case map_of (requests m) rid of
        None \<Rightarrow> (Inl (KeyError (''Permission request '' @ rid @ '' not found'')), m)
      | Some request \<Rightarrow>
          if status request \<noteq> PENDING
          then (Inl (ValueError (''Cannot deny request '' @ rid @ '' - status is ''
                                  @ status_value (status request))), m)
          else
            (let r1 = request\<lparr>status := DENIED, granted_by := Some actor, updated_at := now\<rparr>;
                 r2 = (if truthy nts then r1\<lparr>notes := nts\<rparr> else r1)
             in (Inr r2, save (m\<lparr>requests := AList.update rid r2 (requests m)\<rparr>))))"

definition revoke_permission ::
  "PermissionManager \<Rightarrow> string \<Rightarrow> string \<Rightarrow> string option \<Rightarrow> string
     \<Rightarrow> (py_exception + PermissionRequest) \<times> PermissionManager" where
  "revoke_permission m rid actor nts now =
     (case map_of (requests m) rid of
        None \<Rightarrow> (Inl (KeyError (''Permission request '' @ rid @ '' not found'')), m)
      | Some request \<Rightarrow>
          if status request \<noteq> GRANTED
          then (Inl (ValueError (''Cannot revoke request '' @ rid @ '' - status is ''
                                  @ status_value (status request))), m)
          else
            (let r1 = request\<lparr>status := REVOKED, granted_by := Some actor, updated_at := now\<rparr>;
                 r2 = (if truthy nts then r1\<lparr>notes := nts\<rparr> else r1)
             in (Inr r2, save (m\<lparr>requests := AList.update rid r2 (requests m)\<rparr>))))"

definition get_request :: "PermissionManager \<Rightarrow> string \<Rightarrow> PermissionRequest option" where
  "get_request m rid = map_of (requests m) rid"

definition list_requests ::
  "PermissionManager \<Rightarrow> PermissionStatus option \<Rightarrow> DataSource option \<Rightarrow> string option
     \<Rightarrow> PermissionRequest list" where
  "list_requests m st ds rq =
     (let results = map snd (requests m);
          results = (case st of None \<Rightarrow> results | Some s \<Rightarrow> filter (\<lambda>r. status r = s) results);
          results = (case ds of None \<Rightarrow> results | Some d \<Rightarrow> filter (\<lambda>r. data_source r = d) results);
          results = (case rq of None \<Rightarrow> results | Some q \<Rightarrow> filter (\<lambda>r. requester r = q) results)
      in results)"

fun has_permission_loop :: "PermissionRequest list \<Rightarrow> string \<Rightarrow> DataSource \<Rightarrow> bool" where
  "has_permission_loop [] rq ds = False"
| "has_permission_loop (r # rs) rq ds =
     (if requester r = rq \<and> data_source r = ds \<and> status r = GRANTED then True
      else has_permission_loop rs rq ds)"

definition has_permission :: "PermissionManager \<Rightarrow> string \<Rightarrow> DataSource \<Rightarrow> bool" where
  "has_permission m rq ds = has_permission_loop (map snd (requests m)) rq ds"

definition clear_all :: "PermissionManager \<Rightarrow> PermissionManager" where
  "clear_all m = m\<lparr>requests := [], storage := NoFile\<rparr>"

subsection \<open>Runs of a registry\<close>

text \<open>
  A call of one of the mutating operations, with its arguments and the clock readings it
  makes. A call that raises leaves the manager as it was and the run goes on, as in a
  caller that catches the exception.
\<close>

datatype call =
    Create string DataSource string "string option" string string string
  | Grant string string "string option" string
  | Deny string string "string option" string
  | Revoke string string "string option" string
  | ClearAll

fun apply_call :: "call \<Rightarrow> PermissionManager \<Rightarrow> PermissionManager" where
  "apply_call (Create rq ds p nts stamp now_c now_u) m = snd (create_request m rq ds p nts stamp now_c now_u)"
| "apply_call (Grant rid actor nts now) m = snd (grant_permission m rid actor nts now)"
| "apply_call (Deny rid actor nts now) m = snd (deny_permission m rid actor nts now)"
| "apply_call (Revoke rid actor nts now) m = snd (revoke_permission m rid actor nts now)"
| "apply_call ClearAll m = clear_all m"

fun run :: "call list \<Rightarrow> PermissionManager \<Rightarrow> PermissionManager" where
  "run [] m = m"
| "run (c # cs) m = run cs (apply_call c m)"

text \<open>The manager that \<^verbatim>\<open>__init__\<close> builds when there is no file yet.\<close>

definition fresh :: PermissionManager where
  "fresh = \<lparr>storage = NoFile, requests = []\<rparr>"

inductive reachable :: "PermissionManager \<Rightarrow> bool" where
  reachable_fresh: "reachable fresh"
| reachable_call: "reachable m \<Longrightarrow> reachable (apply_call c m)"

subsection \<open>Which exception a call raised\<close>

fun is_KeyError :: "py_exception + 'a \<Rightarrow> bool" where
  "is_KeyError (Inl (KeyError _)) = True"
| "is_KeyError _ = False"

fun is_ValueError :: "py_exception + 'a \<Rightarrow> bool" where
  "is_ValueError (Inl (ValueError _)) = True"
| "is_ValueError _ = False"

subsection \<open>Example runs\<close>

definition rid1 :: string where
  "rid1 = ''PR-20240101000000-0001''"

definition rid2 :: string where
  "rid2 = ''PR-20240101000000-0002''"

definition create_alice :: call where
  "create_alice = Create ''alice'' WORLD_BANK_API ''research'' (Some ''first'') ''20240101000000''
     ''2024-01-01T00:00:00.000001+00:00'' ''2024-01-01T00:00:00.000002+00:00''"

definition m_pending :: PermissionManager where
  "m_pending = run [create_alice] fresh"

definition m_granted :: PermissionManager where
  "m_granted = run [Grant rid1 ''admin'' None ''2024-01-01T00:00:05+00:00''] m_pending"

definition req_alice :: PermissionRequest where
  "req_alice = \<lparr>request_id = rid1, requester = ''alice'', data_source = WORLD_BANK_API,
     purpose = ''research'', status = PENDING,
     created_at = ''2024-01-01T00:00:00.000001+00:00'',
     updated_at = ''2024-01-01T00:00:00.000002+00:00'',
     granted_by = None, notes = Some ''first''\<rparr>"

text \<open>A request created when the clock read 2 January, before the clock was set back.\<close>

definition m_ahead :: PermissionManager where
  "m_ahead = run [Create ''alice'' WORLD_BANK_API ''research'' None ''20240102000000''
       ''2024-01-02T00:00:00.000001+00:00'' ''2024-01-02T00:00:00.000002+00:00''] fresh"

definition create_alice2 :: call where
  "create_alice2 = Create ''alice'' WORLD_BANK_API ''second try'' None ''20240101000000''
     ''2024-01-01T00:00:00.000003+00:00'' ''2024-01-01T00:00:00.000004+00:00''"

text \<open>Two requests of alice for the World Bank API, both granted, the first one last.\<close>

definition m_two :: PermissionManager where
  "m_two = run [create_alice, create_alice2,
                Grant rid2 ''admin'' None ''2024-01-01T00:00:05+00:00'',
                Grant rid1 ''admin'' None ''2024-01-01T00:00:06+00:00''] fresh"

definition req_granted :: PermissionRequest where
  "req_granted = req_alice\<lparr>status := GRANTED, granted_by := Some ''admin'',
     updated_at := ''2024-01-01T00:00:05+00:00''\<rparr>"

subsection \<open>Predicates used in the proofs\<close>

text \<open>The actor field is empty exactly on a pending request.\<close>

definition actor_ok :: "PermissionRequest \<Rightarrow> bool" where
  "actor_ok r \<longleftrightarrow> (granted_by r = None \<longleftrightarrow> status r = PENDING)"

text \<open>
  The dictionary has each key once, and the file holds what the last \<^verbatim>\<open>_save\<close> wrote,
  or does not exist while nothing is stored.
\<close>

definition store_ok :: "PermissionManager \<Rightarrow> bool" where
  "store_ok m \<longleftrightarrow> distinct (map fst (requests m))
     \<and> (if requests m = [] \<and> storage m = NoFile then True else storage m = storage (save m))"

text \<open>A clock for the default factories during a reload.\<close>

definition clock0 :: "string \<Rightarrow> string \<times> string" where
  "clock0 k = (''2024-02-01T00:00:00.000001+00:00'', ''2024-02-01T00:00:00.000002+00:00'')"

text \<open>
  Reading a decimal numeral back, and the shape of the keys of a registry that has only
  stored requests under generated identifiers: the entry at position \<open>i\<close> carries the
  counter \<open>i + 1\<close>.
\<close>

definition digit_val :: "char \<Rightarrow> nat" where
  "digit_val c = of_char c - 48"

definition str_val :: "string \<Rightarrow> nat" where
  "str_val s = foldl (\<lambda>a c. 10 * a + digit_val c) 0 s"

definition ids_ok :: "string list \<Rightarrow> bool" where
  "ids_ok ks \<longleftrightarrow>
     (\<forall>i < length ks. \<exists>stamp. ks ! i = ''PR-'' @ stamp @ ''-'' @ format_04d (Suc i))"




subsection \<open>The last actor of a run\<close>

text \<open>
  Who acted last on each identifier, followed along a run: a successful grant, deny or
  revoke records its actor for the identifier, a create starts the identifier it
  generates without an actor, and \<^verbatim>\<open>clear_all\<close> forgets everything. A call that raises
  records nothing.
\<close>

definition note_actor :: "call \<Rightarrow> PermissionManager \<Rightarrow> (string \<Rightarrow> string option) \<Rightarrow> (string \<Rightarrow> string option)" where
  "note_actor c m A =
     (case c of
        Create rq ds p nts stamp now_c now_u \<Rightarrow> A(generate_request_id m stamp := None)
      | Grant rid actor nts now \<Rightarrow>
          if isl (fst (grant_permission m rid actor nts now)) then A else A(rid \<mapsto> actor)
      | Deny rid actor nts now \<Rightarrow>
          if isl (fst (deny_permission m rid actor nts now)) then A else A(rid \<mapsto> actor)
      | Revoke rid actor nts now \<Rightarrow>
          if isl (fst (revoke_permission m rid actor nts now)) then A else A(rid \<mapsto> actor)
      | ClearAll \<Rightarrow> Map.empty)"

fun last_actor :: "call list \<Rightarrow> PermissionManager \<Rightarrow> (string \<Rightarrow> string option) \<Rightarrow> (string \<Rightarrow> string option)" where
  "last_actor [] m A = A"
| "last_actor (c # cs) m A = last_actor cs (apply_call c m) (note_actor c m A)"

text \<open>The dictionary has each key once and every request carries the recorded actor.\<close>

definition actors_ok :: "PermissionManager \<Rightarrow> (string \<Rightarrow> string option) \<Rightarrow> bool" where
  "actors_ok m A \<longleftrightarrow> distinct (map fst (requests m))
     \<and> (\<forall>k r. map_of (requests m) k = Some r \<longrightarrow> granted_by r = A k)"

subsection \<open>More example runs\<close>

definition mixed_calls :: "call list" where
  "mixed_calls = [create_alice, create_alice2,
                  Grant rid1 ''admin'' None ''2024-01-01T00:00:05+00:00'',
                  Revoke rid1 ''security'' None ''2024-01-01T00:00:06+00:00'',
                  Deny rid2 ''board'' (Some ''duplicate'') ''2024-01-01T00:00:07+00:00'']"

definition req_revoked :: PermissionRequest where
  "req_revoked = req_alice\<lparr>status := REVOKED, granted_by := Some ''security'',
     updated_at := ''2024-01-01T00:00:06+00:00''\<rparr>"

definition req_board :: PermissionRequest where
  "req_board = \<lparr>request_id = rid2, requester = ''alice'', data_source = WORLD_BANK_API,
     purpose = ''second try'', status = DENIED,
     created_at = ''2024-01-01T00:00:00.000003+00:00'',
     updated_at = ''2024-01-01T00:00:07+00:00'',
     granted_by = Some ''board'', notes = Some ''duplicate''\<rparr>"




section \<open>Properties\<close>

subsection \<open>Failing transitions\<close>

text \<open>
  C1. For every manager and every identifier, \<^verbatim>\<open>grant_permission\<close>, \<^verbatim>\<open>deny_permission\<close>
  and \<^verbatim>\<open>revoke_permission\<close> raise \<^verbatim>\<open>KeyError\<close> exactly when the identifier is not in the
  registry; when it is, they raise \<^verbatim>\<open>ValueError\<close> exactly when the request's status is
  not the one the operation starts from (pending for grant and deny, granted for
  revoke), and the message ends with the value of the current status; and a call that
  raises leaves the manager, its dictionary and its file alike, as it was.
\<close>

theorem transition_failures:
  "(is_KeyError (fst (grant_permission m rid actor nts now)) \<longleftrightarrow> get_request m rid = None)
   \<and> (is_KeyError (fst (deny_permission m rid actor nts now)) \<longleftrightarrow> get_request m rid = None)
   \<and> (is_KeyError (fst (revoke_permission m rid actor nts now)) \<longleftrightarrow> get_request m rid = None)
   \<and> (\<forall>r. get_request m rid = Some r \<longrightarrow>
          (is_ValueError (fst (grant_permission m rid actor nts now)) \<longleftrightarrow> status r \<noteq> PENDING)
        \<and> (is_ValueError (fst (deny_permission m rid actor nts now)) \<longleftrightarrow> status r \<noteq> PENDING)
        \<and> (is_ValueError (fst (revoke_permission m rid actor nts now)) \<longleftrightarrow> status r \<noteq> GRANTED)
        \<and> (status r \<noteq> PENDING \<longrightarrow>
              fst (grant_permission m rid actor nts now) =
                Inl (ValueError (''Cannot grant request '' @ rid @ '' - status is ''
                                  @ status_value (status r))))
        \<and> (status r \<noteq> PENDING \<longrightarrow>
              fst (deny_permission m rid actor nts now) =
                Inl (ValueError (''Cannot deny request '' @ rid @ '' - status is ''
                                  @ status_value (status r))))
        \<and> (status r \<noteq> GRANTED \<longrightarrow>
              fst (revoke_permission m rid actor nts now) =
                Inl (ValueError (''Cannot revoke request '' @ rid @ '' - status is ''
                                  @ status_value (status r)))))
   \<and> (isl (fst (grant_permission m rid actor nts now)) \<longrightarrow>
          snd (grant_permission m rid actor nts now) = m)
   \<and> (isl (fst (deny_permission m rid actor nts now)) \<longrightarrow>
          snd (deny_permission m rid actor nts now) = m)
   \<and> (isl (fst (revoke_permission m rid actor nts now)) \<longrightarrow>
          snd (revoke_permission m rid actor nts now) = m)"
  by (simp add: grant_permission_def deny_permission_def revoke_permission_def get_request_def
        Let_def split: option.split)

theorem transition_failures_witness:
  "get_request m_granted rid1 \<noteq> None
   \<and> fst (grant_permission m_granted rid1 ''admin'' None ''2024-01-01T00:00:09+00:00'') =
       Inl (ValueError ''Cannot grant request PR-20240101000000-0001 - status is granted'')
   \<and> snd (grant_permission m_granted rid1 ''admin'' None ''2024-01-01T00:00:09+00:00'') = m_granted
   \<and> is_KeyError (fst (revoke_permission m_granted rid2 ''admin'' None ''2024-01-01T00:00:09+00:00''))
   \<and> snd (revoke_permission m_granted rid2 ''admin'' None ''2024-01-01T00:00:09+00:00'') = m_granted"
proof -
  have "map_option status (get_request m_granted rid1) = Some GRANTED"
    by code_simp
  then obtain r where r: "get_request m_granted rid1 = Some r" "status r = GRANTED"
    by (cases "get_request m_granted rid1") auto
  have msg: "''Cannot grant request '' @ rid1 @ '' - status is '' @ status_value GRANTED =
      ''Cannot grant request PR-20240101000000-0001 - status is granted''"
    by (simp add: rid1_def)
  have absent: "get_request m_granted rid2 = None"
    by code_simp
  note at1 = transition_failures [of m_granted rid1 "''admin''" None "''2024-01-01T00:00:09+00:00''"]
  note at2 = transition_failures [of m_granted rid2 "''admin''" None "''2024-01-01T00:00:09+00:00''"]
  have "fst (grant_permission m_granted rid1 ''admin'' None ''2024-01-01T00:00:09+00:00'') =
      Inl (ValueError ''Cannot grant request PR-20240101000000-0001 - status is granted'')"
    using at1 r msg by simp
  moreover from this
  have "snd (grant_permission m_granted rid1 ''admin'' None ''2024-01-01T00:00:09+00:00'') = m_granted"
    using at1 by simp
  moreover
  have k: "is_KeyError (fst (revoke_permission m_granted rid2 ''admin'' None ''2024-01-01T00:00:09+00:00''))"
    using at2 absent by simp
  moreover
  have "isl (fst (revoke_permission m_granted rid2 ''admin'' None ''2024-01-01T00:00:09+00:00''))"
    using k by (cases "fst (revoke_permission m_granted rid2 ''admin'' None ''2024-01-01T00:00:09+00:00'')") auto
  then have "snd (revoke_permission m_granted rid2 ''admin'' None ''2024-01-01T00:00:09+00:00'') = m_granted"
    using at2 by simp
  ultimately show ?thesis
    using r by simp
qed

subsection \<open>Dictionary lemmas\<close>

lemma map_of_update_same: "map_of (AList.update k v al) k = Some v"
  by (simp add: update_conv')

lemma map_of_update_other: "k' \<noteq> k \<Longrightarrow> map_of (AList.update k v al) k' = map_of al k'"
  by (simp add: update_conv')

lemma keys_update_present:
  "map_of al k = Some w \<Longrightarrow> map fst (AList.update k v al) = map fst al"
  by (simp add: update_keys) (metis map_of_eq_None_iff option.distinct(1) image_set)

subsection \<open>Creation\<close>

text \<open>
  C7, as the code has it. \<^verbatim>\<open>create_request\<close> returns a request with status pending
  whose \<^verbatim>\<open>created_at\<close> and \<^verbatim>\<open>updated_at\<close> are the readings of two successive calls of
  the clock, one in each default factory; the two fields are equal exactly when the
  two readings are. The request is stored under its identifier.
\<close>

theorem create_request_fields:
  "status (fst (create_request m rq ds p nts stamp now_c now_u)) = PENDING
   \<and> created_at (fst (create_request m rq ds p nts stamp now_c now_u)) = now_c
   \<and> updated_at (fst (create_request m rq ds p nts stamp now_c now_u)) = now_u
   \<and> (created_at (fst (create_request m rq ds p nts stamp now_c now_u)) =
        updated_at (fst (create_request m rq ds p nts stamp now_c now_u)) \<longleftrightarrow> now_c = now_u)
   \<and> get_request (snd (create_request m rq ds p nts stamp now_c now_u))
        (request_id (fst (create_request m rq ds p nts stamp now_c now_u))) =
       Some (fst (create_request m rq ds p nts stamp now_c now_u))"
  by (simp add: create_request_def Let_def get_request_def save_def map_of_update_same)

text \<open>
  C7 as stated fails: when the clock advances by a microsecond between the two default
  factories, the request is created with \<^verbatim>\<open>created_at\<close> different from \<^verbatim>\<open>updated_at\<close>.
\<close>

theorem create_timestamps_counterexample:
  "created_at (fst (create_request fresh ''alice'' WORLD_BANK_API ''research'' None ''20240101000000''
       ''2024-01-01T00:00:00.000001+00:00'' ''2024-01-01T00:00:00.000002+00:00'')) \<noteq>
   updated_at (fst (create_request fresh ''alice'' WORLD_BANK_API ''research'' None ''20240101000000''
       ''2024-01-01T00:00:00.000001+00:00'' ''2024-01-01T00:00:00.000002+00:00''))"
  by (simp add: create_request_def Let_def)

subsection \<open>Notes\<close>

text \<open>
  C9, as the code has it. On a successful grant, deny or revoke the notes of the request
  are replaced by the supplied value exactly when that value is a non-empty string;
  with no value, and also with the empty string, the stored notes are kept. The
  request returned is the one stored.
\<close>

theorem transition_notes:
  assumes "res = grant_permission m rid actor nts now \<or> res = deny_permission m rid actor nts now
           \<or> res = revoke_permission m rid actor nts now"
    and "get_request m rid = Some r"
    and "fst res = Inr r'"
  shows "notes r' = (case nts of None \<Rightarrow> notes r | Some n \<Rightarrow> if n = [] then notes r else Some n)
         \<and> get_request (snd res) rid = Some r'"
  using assms
  by (auto simp: grant_permission_def deny_permission_def revoke_permission_def get_request_def
        Let_def save_def map_of_update_same split: option.splits if_splits)

theorem transition_notes_witness:
  "get_request m_pending rid1 = Some req_alice
   \<and> fst (grant_permission m_pending rid1 ''admin'' (Some ''approved'') ''2024-01-01T00:00:05+00:00'') =
       Inr (req_alice\<lparr>status := GRANTED, granted_by := Some ''admin'',
              updated_at := ''2024-01-01T00:00:05+00:00'', notes := Some ''approved''\<rparr>)
   \<and> get_request
        (snd (grant_permission m_pending rid1 ''admin'' (Some ''approved'') ''2024-01-01T00:00:05+00:00''))
        rid1 =
       Some (req_alice\<lparr>status := GRANTED, granted_by := Some ''admin'',
              updated_at := ''2024-01-01T00:00:05+00:00'', notes := Some ''approved''\<rparr>)"
proof -
  have a: "get_request m_pending rid1 = Some req_alice"
    by code_simp
  have b: "fst (grant_permission m_pending rid1 ''admin'' (Some ''approved'') ''2024-01-01T00:00:05+00:00'') =
      Inr (req_alice\<lparr>status := GRANTED, granted_by := Some ''admin'',
             updated_at := ''2024-01-01T00:00:05+00:00'', notes := Some ''approved''\<rparr>)"
    by code_simp
  from transition_notes [OF disjI1 [OF refl] a b] a b show ?thesis
    by simp
qed

text \<open>
  C9 as stated fails for the empty string: it is a supplied value, and the notes
  \<^verbatim>\<open>"first"\<close> stored at creation are kept instead of being replaced by it.
\<close>

theorem empty_notes_counterexample:
  "fst (grant_permission m_pending rid1 ''admin'' (Some '''') ''2024-01-01T00:00:05+00:00'') =
     Inr (req_alice\<lparr>status := GRANTED, granted_by := Some ''admin'',
            updated_at := ''2024-01-01T00:00:05+00:00'', notes := Some ''first''\<rparr>)"
  by code_simp

subsection \<open>Granting\<close>

text \<open>
  C2, as the code has it. For a stored request with status pending,
  \<^verbatim>\<open>grant_permission\<close> succeeds; the request then has status granted, \<^verbatim>\<open>granted_by\<close> the
  supplied actor and \<^verbatim>\<open>updated_at\<close> the clock reading of the call, which is not before
  \<^verbatim>\<open>created_at\<close> whenever the clock has not gone back behind the stored \<^verbatim>\<open>created_at\<close>;
  identifier, requester, data source, purpose and \<^verbatim>\<open>created_at\<close> are unchanged, and so
  is every other entry of the registry and the order of the entries.
\<close>

theorem grant_permission_success:
  assumes "get_request m rid = Some r" and "status r = PENDING"
  shows "\<exists>r'. fst (grant_permission m rid actor nts now) = Inr r'
           \<and> status r' = GRANTED \<and> granted_by r' = Some actor \<and> updated_at r' = now
           \<and> (created_at r \<le> now \<longrightarrow> created_at r' \<le> updated_at r')
           \<and> request_id r' = request_id r \<and> requester r' = requester r
           \<and> data_source r' = data_source r \<and> purpose r' = purpose r
           \<and> created_at r' = created_at r
           \<and> get_request (snd (grant_permission m rid actor nts now)) rid = Some r'
           \<and> (\<forall>k. k \<noteq> rid \<longrightarrow>
                 get_request (snd (grant_permission m rid actor nts now)) k = get_request m k)
           \<and> map fst (requests (snd (grant_permission m rid actor nts now))) = map fst (requests m)"
  using assms
  by (auto simp: grant_permission_def get_request_def Let_def save_def map_of_update_same
        map_of_update_other keys_update_present)

theorem grant_permission_success_witness:
  "get_request m_pending rid1 = Some req_alice \<and> status req_alice = PENDING
   \<and> created_at req_alice \<le> ''2024-01-01T00:00:05+00:00''
   \<and> fst (grant_permission m_pending rid1 ''admin'' None ''2024-01-01T00:00:05+00:00'') =
       Inr (req_alice\<lparr>status := GRANTED, granted_by := Some ''admin'',
              updated_at := ''2024-01-01T00:00:05+00:00''\<rparr>)
   \<and> created_at req_alice \<le>
       updated_at (req_alice\<lparr>status := GRANTED, granted_by := Some ''admin'',
              updated_at := ''2024-01-01T00:00:05+00:00''\<rparr>)"
proof -
  have a: "get_request m_pending rid1 = Some req_alice"
    by code_simp
  have b: "status req_alice = PENDING"
    by (simp add: req_alice_def)
  have c: "created_at req_alice \<le> ''2024-01-01T00:00:05+00:00''"
    by (simp add: req_alice_def)
  have d: "fst (grant_permission m_pending rid1 ''admin'' None ''2024-01-01T00:00:05+00:00'') =
       Inr (req_alice\<lparr>status := GRANTED, granted_by := Some ''admin'',
              updated_at := ''2024-01-01T00:00:05+00:00''\<rparr>)"
    by code_simp
  from grant_permission_success [OF a b, of "''admin''" None "''2024-01-01T00:00:05+00:00''"] a b c d
  show ?thesis
    by auto
qed

text \<open>
  C2 as stated fails when the clock has been set back: the request of \<open>m_ahead\<close> was
  created on 2 January, the grant reads 1 January from the clock, and the granted
  request has \<^verbatim>\<open>updated_at\<close> before \<^verbatim>\<open>created_at\<close>.
\<close>

theorem grant_clock_counterexample:
  "fst (grant_permission m_ahead ''PR-20240102000000-0001'' ''admin'' None ''2024-01-01T00:00:00+00:00'') =
     Inr \<lparr>request_id = ''PR-20240102000000-0001'', requester = ''alice'',
          data_source = WORLD_BANK_API, purpose = ''research'', status = GRANTED,
          created_at = ''2024-01-02T00:00:00.000001+00:00'',
          updated_at = ''2024-01-01T00:00:00+00:00'',
          granted_by = Some ''admin'', notes = None\<rparr>
   \<and> \<not> (''2024-01-02T00:00:00.000001+00:00'' :: string) \<le> ''2024-01-01T00:00:00+00:00''"
  by code_simp

subsection \<open>More dictionary lemmas\<close>

lemma in_set_update: "(k, v) \<in> set (AList.update k v al)"
  by (induction al) auto

lemma set_update_subset: "set (AList.update k v al) \<subseteq> insert (k, v) (set al)"
  by (induction al) auto

lemma set_update_distinct:
  "distinct (map fst al) \<Longrightarrow> map_of al k = Some w \<Longrightarrow>
   set (AList.update k v al) = insert (k, v) (set al - {(k, w)})"
proof (induction al)
  case Nil
  then show ?case by simp
next
  case (Cons p al)
  show ?case
  proof (cases "fst p = k")
    case True
    with Cons.prems have "p = (k, w)" by (cases p) auto
    moreover from Cons.prems True have "(k, w) \<notin> set al" by (force simp: image_iff)
    ultimately show ?thesis by auto
  next
    case False
    with Cons show ?thesis by (cases p) auto
  qed
qed

lemma in_set_updateD:
  "(k, r) \<in> set (AList.update k' v al) \<Longrightarrow> (k, r) = (k', v) \<or> (k, r) \<in> set al"
  using set_update_subset by fastforce

lemma reachable_run: "reachable m \<Longrightarrow> reachable (run cs m)"
  by (induction cs arbitrary: m) (auto intro: reachable_call)

subsection \<open>Checking a permission\<close>

lemma has_permission_loop_iff:
  "has_permission_loop rs rq ds \<longleftrightarrow>
   (\<exists>r \<in> set rs. requester r = rq \<and> data_source r = ds \<and> status r = GRANTED)"
  by (induction rs) auto

lemma has_permission_iff:
  "has_permission m rq ds \<longleftrightarrow>
   (\<exists>(k, r) \<in> set (requests m). requester r = rq \<and> data_source r = ds \<and> status r = GRANTED)"
  by (force simp: has_permission_def has_permission_loop_iff)

text \<open>
  C3, as the code has it. In a registry whose dictionary has each key once: right after
  a successful grant of a request, \<^verbatim>\<open>has_permission\<close> is true for its requester and
  data source; right after a successful revoke of a request, \<^verbatim>\<open>has_permission\<close> for its
  requester and data source is true exactly when another stored request of that
  requester for that data source is granted, hence false when there is none.
\<close>

theorem has_permission_after:
  assumes "distinct (map fst (requests m))"
  shows "(fst (grant_permission m rid actor nts now) = Inr r \<longrightarrow>
            has_permission (snd (grant_permission m rid actor nts now)) (requester r) (data_source r))
       \<and> (fst (revoke_permission m rid actor nts now) = Inr r \<longrightarrow>
            (has_permission (snd (revoke_permission m rid actor nts now)) (requester r) (data_source r)
             \<longleftrightarrow> (\<exists>(k, q) \<in> set (requests m). k \<noteq> rid \<and> requester q = requester r
                     \<and> data_source q = data_source r \<and> status q = GRANTED)))"
proof (intro conjI impI)
  assume g: "fst (grant_permission m rid actor nts now) = Inr r"
  then have "(rid, r) \<in> set (requests (snd (grant_permission m rid actor nts now)))" "status r = GRANTED"
    by (auto simp: grant_permission_def Let_def save_def in_set_update split: option.splits if_splits)
  then show "has_permission (snd (grant_permission m rid actor nts now)) (requester r) (data_source r)"
    unfolding has_permission_iff by blast
next
  assume v: "fst (revoke_permission m rid actor nts now) = Inr r"
  then obtain w where w: "map_of (requests m) rid = Some w" "status w = GRANTED"
    and rq: "requests (snd (revoke_permission m rid actor nts now)) = AList.update rid r (requests m)"
    and st: "status r = REVOKED"
    by (auto simp: revoke_permission_def Let_def save_def split: option.splits if_splits)
  have "set (requests (snd (revoke_permission m rid actor nts now))) =
        insert (rid, r) (set (requests m) - {(rid, w)})"
    using set_update_distinct [OF assms w(1)] rq by simp
  moreover have "\<And>q. (rid, q) \<in> set (requests m) \<Longrightarrow> q = w"
    using assms w(1) by simp
  ultimately have "(\<exists>(k, q) \<in> set (requests (snd (revoke_permission m rid actor nts now))).
          requester q = requester r \<and> data_source q = data_source r \<and> status q = GRANTED)
      \<longleftrightarrow> (\<exists>(k, q) \<in> set (requests m). k \<noteq> rid \<and> requester q = requester r
              \<and> data_source q = data_source r \<and> status q = GRANTED)"
    using st by (simp add: Bex_def case_prod_beta) (metis PermissionStatus.distinct(9) prod.collapse fst_conv snd_conv)
  then show "has_permission (snd (revoke_permission m rid actor nts now)) (requester r) (data_source r)
      \<longleftrightarrow> (\<exists>(k, q) \<in> set (requests m). k \<noteq> rid \<and> requester q = requester r
              \<and> data_source q = data_source r \<and> status q = GRANTED)"
    unfolding has_permission_iff .
qed

theorem has_permission_after_witness:
  "distinct (map fst (requests m_pending))
   \<and> fst (grant_permission m_pending rid1 ''admin'' None ''2024-01-01T00:00:05+00:00'') = Inr req_granted
   \<and> has_permission (snd (grant_permission m_pending rid1 ''admin'' None ''2024-01-01T00:00:05+00:00''))
        ''alice'' WORLD_BANK_API
   \<and> distinct (map fst (requests m_granted))
   \<and> fst (revoke_permission m_granted rid1 ''security'' None ''2024-01-01T00:00:07+00:00'') =
       Inr (req_granted\<lparr>status := REVOKED, granted_by := Some ''security'',
              updated_at := ''2024-01-01T00:00:07+00:00''\<rparr>)
   \<and> \<not> has_permission (snd (revoke_permission m_granted rid1 ''security'' None ''2024-01-01T00:00:07+00:00''))
        ''alice'' WORLD_BANK_API"
proof -
  have d1: "distinct (map fst (requests m_pending))"
    by code_simp
  have g: "fst (grant_permission m_pending rid1 ''admin'' None ''2024-01-01T00:00:05+00:00'') = Inr req_granted"
    by code_simp
  have d2: "distinct (map fst (requests m_granted))"
    by code_simp
  have v: "fst (revoke_permission m_granted rid1 ''security'' None ''2024-01-01T00:00:07+00:00'') =
       Inr (req_granted\<lparr>status := REVOKED, granted_by := Some ''security'',
              updated_at := ''2024-01-01T00:00:07+00:00''\<rparr>)"
    by code_simp
  have only: "requests m_granted = [(rid1, req_granted)]"
    by code_simp
  have who: "requester req_granted = ''alice''" "data_source req_granted = WORLD_BANK_API"
    by (simp_all add: req_granted_def req_alice_def)
  have "has_permission (snd (grant_permission m_pending rid1 ''admin'' None ''2024-01-01T00:00:05+00:00''))
        ''alice'' WORLD_BANK_API"
    using has_permission_after [OF d1, of rid1 "''admin''" None "''2024-01-01T00:00:05+00:00''" req_granted]
      g who by simp
  moreover
  have "\<not> has_permission (snd (revoke_permission m_granted rid1 ''security'' None ''2024-01-01T00:00:07+00:00''))
        ''alice'' WORLD_BANK_API"
    using has_permission_after [OF d2, of rid1 "''security''" None "''2024-01-01T00:00:07+00:00''"
        "req_granted\<lparr>status := REVOKED, granted_by := Some ''security'',
              updated_at := ''2024-01-01T00:00:07+00:00''\<rparr>"]
      v who only by simp
  ultimately show ?thesis
    using d1 d2 g v by simp
qed

text \<open>
  C3 as stated fails when the requester holds a second granted request for the same
  data source: in \<open>m_two\<close> the first request has just been granted, it is revoked
  successfully, and \<^verbatim>\<open>has_permission\<close> is still true.
\<close>

theorem revoke_other_grant_counterexample:
  "has_permission m_two ''alice'' WORLD_BANK_API
   \<and> fst (revoke_permission m_two rid1 ''security'' None ''2024-01-01T00:00:07+00:00'') =
       Inr (req_alice\<lparr>status := REVOKED, granted_by := Some ''security'',
              updated_at := ''2024-01-01T00:00:07+00:00''\<rparr>)
   \<and> has_permission (snd (revoke_permission m_two rid1 ''security'' None ''2024-01-01T00:00:07+00:00''))
        ''alice'' WORLD_BANK_API"
  by code_simp

subsection \<open>Construction against a damaged file\<close>

text \<open>
  C8 does not hold of \<^verbatim>\<open>_load\<close>. The \<^verbatim>\<open>except\<close> clause names \<^verbatim>\<open>JSONDecodeError\<close>, \<^verbatim>\<open>KeyError\<close>
  and \<^verbatim>\<open>ValueError\<close> only. A file that holds valid JSON of the wrong shape makes
  construction raise: a list has no \<^verbatim>\<open>items\<close> (\<^verbatim>\<open>AttributeError\<close>), an entry that is not
  an object cannot be indexed by a string, and an entry without the required fields
  fails in the dataclass constructor (both \<^verbatim>\<open>TypeError\<close>). Text that is not JSON, and an
  entry without \<^verbatim>\<open>data_source\<close>, are recovered from as intended.
\<close>

theorem init_structurally_invalid:
  "PermissionManager_init clk Malformed =
     Returns (Some WARNING, \<lparr>storage = Malformed, requests = []\<rparr>)
   \<and> PermissionManager_init clk (Json (JObj [(''PR-1'', JObj [])])) =
       Returns (Some WARNING, \<lparr>storage = Json (JObj [(''PR-1'', JObj [])]), requests = []\<rparr>)
   \<and> PermissionManager_init clk (Json (JArr [])) = Raises AttributeError
   \<and> PermissionManager_init clk (Json (JObj [(''PR-1'', JNum 1)])) = Raises TypeError
   \<and> PermissionManager_init clk
        (Json (JObj [(''PR-1'', JObj [(''data_source'', JStr ''custom''), (''status'', JStr ''pending'')])])) =
       Raises TypeError"
  by (simp add: PermissionManager_init_def load_def from_dict_def DataSource_of_def
        PermissionStatus_of_def construct_def field_names_def)

subsection \<open>The actor field\<close>

lemma actor_ok_step:
  assumes "\<forall>(k, r) \<in> set (requests m). actor_ok r"
  shows "\<forall>(k, r) \<in> set (requests (apply_call c m)). actor_ok r"
  using assms
  by (cases c)
    (auto simp: create_request_def grant_permission_def deny_permission_def revoke_permission_def
       clear_all_def save_def Let_def actor_ok_def split: option.splits dest!: in_set_updateD)

lemma actors_ok_update:
  assumes "actors_ok m A" and "granted_by v = a"
  shows "actors_ok (save (m\<lparr>requests := AList.update g v (requests m)\<rparr>)) (A(g := a))"
proof -
  from assms(1) have d: "distinct (map fst (requests m))"
    and g: "\<And>k r. map_of (requests m) k = Some r \<Longrightarrow> granted_by r = A k"
    unfolding actors_ok_def by blast+
  have "granted_by r = (A(g := a)) k" if "map_of (AList.update g v (requests m)) k = Some r" for k r
    using that g [of k r] assms(2) by (cases "k = g") (simp_all add: update_conv' del: map_of_eq_Some_iff)
  then show ?thesis
    unfolding actors_ok_def by (simp add: save_def distinct_update d del: map_of_eq_Some_iff)
qed

lemma actors_ok_step:
  assumes "actors_ok m A"
  shows "actors_ok (apply_call c m) (note_actor c m A)"
proof (cases c)
  case (Create rq ds p nts stamp now_c now_u)
  then show ?thesis
    using actors_ok_update [OF assms, of _ None "generate_request_id m stamp"]
    by (simp add: create_request_def Let_def note_actor_def)
next
  case (Grant rid actor nts now)
  then show ?thesis
    using assms actors_ok_update [OF assms, of _ "Some actor" rid]
    by (auto simp: grant_permission_def Let_def note_actor_def split: option.splits)
next
  case (Deny rid actor nts now)
  then show ?thesis
    using assms actors_ok_update [OF assms, of _ "Some actor" rid]
    by (auto simp: deny_permission_def Let_def note_actor_def split: option.splits)
next
  case (Revoke rid actor nts now)
  then show ?thesis
    using assms actors_ok_update [OF assms, of _ "Some actor" rid]
    by (auto simp: revoke_permission_def Let_def note_actor_def split: option.splits)
next
  case ClearAll
  then show ?thesis by (simp add: actors_ok_def clear_all_def note_actor_def)
qed

lemma actors_ok_run: "actors_ok m A \<Longrightarrow> actors_ok (run cs m) (last_actor cs m A)"
proof (induction cs arbitrary: m A)
  case Nil
  then show ?case by simp
next
  case (Cons c cs)
  from Cons.IH [OF actors_ok_step [OF Cons.prems, of c]] show ?case by simp
qed

lemma actors_ok_fresh: "actors_ok fresh Map.empty"
  by (simp add: actors_ok_def fresh_def)

lemma reachable_actor_ok: "reachable m \<Longrightarrow> \<forall>(k, r) \<in> set (requests m). actor_ok r"
proof (induction rule: reachable.induct)
  case reachable_fresh
  show ?case by (simp add: fresh_def)
next
  case (reachable_call m c)
  from actor_ok_step [OF reachable_call.IH] show ?case .
qed

lemma transition_actor:
  "fst (grant_permission m rid actor nts now) = Inr r' \<Longrightarrow>
     status r' = GRANTED \<and> granted_by r' = Some actor
     \<and> get_request (snd (grant_permission m rid actor nts now)) rid = Some r'"
  "fst (deny_permission m rid actor nts now) = Inr r' \<Longrightarrow>
     status r' = DENIED \<and> granted_by r' = Some actor
     \<and> get_request (snd (deny_permission m rid actor nts now)) rid = Some r'"
  "fst (revoke_permission m rid actor nts now) = Inr r' \<Longrightarrow>
     status r' = REVOKED \<and> granted_by r' = Some actor
     \<and> get_request (snd (revoke_permission m rid actor nts now)) rid = Some r'"
  by (auto simp: grant_permission_def deny_permission_def revoke_permission_def Let_def save_def
        get_request_def map_of_update_same split: option.splits if_splits)

text \<open>
  C10. In every manager reached from one built without a file by calls of create,
  grant, deny, revoke (and clear_all), a stored request has \<^verbatim>\<open>granted_by\<close> equal to
  \<^verbatim>\<open>None\<close> exactly when its status is pending. After any run from such a manager, the
  actor a stored request carries is the one of the last grant, deny or revoke that
  succeeded on its identifier. Each successful grant, deny or revoke puts its own
  actor, with the status it sets, into the request it returns and stores. Actors are
  strings, so never \<^verbatim>\<open>None\<close>.
\<close>

theorem actor_recorded:
  "(reachable m \<and> (k, r) \<in> set (requests m) \<longrightarrow> (granted_by r = None \<longleftrightarrow> status r = PENDING))
   \<and> ((k, r) \<in> set (requests (run cs fresh)) \<longrightarrow> granted_by r = last_actor cs fresh Map.empty k)
   \<and> (fst (grant_permission m rid actor nts now) = Inr r' \<longrightarrow>
         status r' = GRANTED \<and> granted_by r' = Some actor
         \<and> get_request (snd (grant_permission m rid actor nts now)) rid = Some r')
   \<and> (fst (deny_permission m rid actor nts now) = Inr r' \<longrightarrow>
         status r' = DENIED \<and> granted_by r' = Some actor
         \<and> get_request (snd (deny_permission m rid actor nts now)) rid = Some r')
   \<and> (fst (revoke_permission m rid actor nts now) = Inr r' \<longrightarrow>
         status r' = REVOKED \<and> granted_by r' = Some actor
         \<and> get_request (snd (revoke_permission m rid actor nts now)) rid = Some r')"
proof (intro conjI impI)
  assume "reachable m \<and> (k, r) \<in> set (requests m)"
  with reachable_actor_ok [of m] show "granted_by r = None \<longleftrightarrow> status r = PENDING"
    by (auto simp: actor_ok_def)
next
  assume mem: "(k, r) \<in> set (requests (run cs fresh))"
  have ok: "actors_ok (run cs fresh) (last_actor cs fresh Map.empty)"
    using actors_ok_fresh by (rule actors_ok_run)
  then have "map_of (requests (run cs fresh)) k = Some r"
    using mem by (simp add: actors_ok_def)
  with ok show "granted_by r = last_actor cs fresh Map.empty k"
    by (simp add: actors_ok_def)
qed (simp_all add: transition_actor)


theorem actor_recorded_witness:
  "reachable (run mixed_calls fresh)
   \<and> requests (run mixed_calls fresh) = [(rid1, req_revoked), (rid2, req_board)]
   \<and> (granted_by req_revoked = None \<longleftrightarrow> status req_revoked = PENDING)
   \<and> granted_by req_revoked = last_actor mixed_calls fresh Map.empty rid1
   \<and> last_actor mixed_calls fresh Map.empty rid1 = Some ''security''
   \<and> granted_by req_board = last_actor mixed_calls fresh Map.empty rid2
   \<and> last_actor mixed_calls fresh Map.empty rid2 = Some ''board''
   \<and> fst (deny_permission m_pending rid1 ''board'' None ''2024-01-01T00:00:05+00:00'') =
       Inr (req_alice\<lparr>status := DENIED, granted_by := Some ''board'',
              updated_at := ''2024-01-01T00:00:05+00:00''\<rparr>)
   \<and> get_request (snd (deny_permission m_pending rid1 ''board'' None ''2024-01-01T00:00:05+00:00'')) rid1 =
       Some (req_alice\<lparr>status := DENIED, granted_by := Some ''board'',
              updated_at := ''2024-01-01T00:00:05+00:00''\<rparr>)
   \<and> fst (revoke_permission m_granted rid1 ''security'' None ''2024-01-01T00:00:06+00:00'') =
       Inr (req_granted\<lparr>status := REVOKED, granted_by := Some ''security'',
              updated_at := ''2024-01-01T00:00:06+00:00''\<rparr>)
   \<and> get_request (snd (revoke_permission m_granted rid1 ''security'' None ''2024-01-01T00:00:06+00:00'')) rid1 =
       Some (req_granted\<lparr>status := REVOKED, granted_by := Some ''security'',
              updated_at := ''2024-01-01T00:00:06+00:00''\<rparr>)"
proof -
  have a: "reachable (run mixed_calls fresh)"
    by (intro reachable_run reachable_fresh)
  have b: "requests (run mixed_calls fresh) = [(rid1, req_revoked), (rid2, req_board)]"
    by code_simp
  have l1: "last_actor mixed_calls fresh Map.empty rid1 = Some ''security''"
    by code_simp
  have l2: "last_actor mixed_calls fresh Map.empty rid2 = Some ''board''"
    by code_simp
  have d: "fst (deny_permission m_pending rid1 ''board'' None ''2024-01-01T00:00:05+00:00'') =
       Inr (req_alice\<lparr>status := DENIED, granted_by := Some ''board'',
              updated_at := ''2024-01-01T00:00:05+00:00''\<rparr>)"
    by code_simp
  have v: "fst (revoke_permission m_granted rid1 ''security'' None ''2024-01-01T00:00:06+00:00'') =
       Inr (req_granted\<lparr>status := REVOKED, granted_by := Some ''security'',
              updated_at := ''2024-01-01T00:00:06+00:00''\<rparr>)"
    by code_simp
  note at1 = actor_recorded [of "run mixed_calls fresh" rid1 req_revoked mixed_calls, THEN conjunct1]
  note at1' = actor_recorded [of "run mixed_calls fresh" rid1 req_revoked mixed_calls,
      THEN conjunct2, THEN conjunct1]
  note at2 = actor_recorded [of "run mixed_calls fresh" rid2 req_board mixed_calls,
      THEN conjunct2, THEN conjunct1]
  note at3 = actor_recorded [of m_pending _ _ _ rid1 "''board''" None "''2024-01-01T00:00:05+00:00''"
      "req_alice\<lparr>status := DENIED, granted_by := Some ''board'',
              updated_at := ''2024-01-01T00:00:05+00:00''\<rparr>",
      THEN conjunct2, THEN conjunct2, THEN conjunct2, THEN conjunct1]
  note at4 = actor_recorded [of m_granted _ _ _ rid1 "''security''" None "''2024-01-01T00:00:06+00:00''"
      "req_granted\<lparr>status := REVOKED, granted_by := Some ''security'',
              updated_at := ''2024-01-01T00:00:06+00:00''\<rparr>",
      THEN conjunct2, THEN conjunct2, THEN conjunct2, THEN conjunct2]
  have "granted_by req_revoked = None \<longleftrightarrow> status req_revoked = PENDING"
    using at1 a b by simp
  moreover have "granted_by req_revoked = last_actor mixed_calls fresh Map.empty rid1"
    using at1' b by simp
  moreover have "granted_by req_board = last_actor mixed_calls fresh Map.empty rid2"
    using at2 b by simp
  moreover have "get_request (snd (deny_permission m_pending rid1 ''board'' None ''2024-01-01T00:00:05+00:00'')) rid1 =
       Some (req_alice\<lparr>status := DENIED, granted_by := Some ''board'',
              updated_at := ''2024-01-01T00:00:05+00:00''\<rparr>)"
    using at3 d by simp
  moreover have "get_request (snd (revoke_permission m_granted rid1 ''security'' None ''2024-01-01T00:00:06+00:00'')) rid1 =
       Some (req_granted\<lparr>status := REVOKED, granted_by := Some ''security'',
              updated_at := ''2024-01-01T00:00:06+00:00''\<rparr>)"
    using at4 v by simp
  ultimately show ?thesis
    using a b l1 l2 d v by simp
qed

subsection \<open>Persistence\<close>

lemma from_dict_to_dict: "from_dict now_c now_u (JObj (to_dict r)) = Returns r"
  by (cases "data_source r"; cases "status r"; cases "granted_by r"; cases "notes r")
    (simp_all add: from_dict_def to_dict_def DataSource_of_def PermissionStatus_of_def
      construct_def field_names_def)

lemma update_absent: "k \<notin> fst ` set al \<Longrightarrow> AList.update k v al = al @ [(k, v)]"
  by (induction al) auto

lemma load_items_saved:
  "distinct (map fst d) \<Longrightarrow> fst ` set d \<inter> fst ` set acc = {} \<Longrightarrow>
   load_items clk (map (\<lambda>(k, v). (k, JObj (to_dict v))) d) acc = Returns (acc @ d)"
proof (induction d arbitrary: acc)
  case Nil
  then show ?case by simp
next
  case (Cons p d)
  obtain k v where p: "p = (k, v)" by (cases p)
  from Cons.prems p have fresh_k: "k \<notin> fst ` set acc" by auto
  have "load_items clk (map (\<lambda>(k, v). (k, JObj (to_dict v))) d) (acc @ [(k, v)]) =
        Returns ((acc @ [(k, v)]) @ d)"
    using Cons.prems p by (intro Cons.IH) auto
  then show ?case
    using p fresh_k by (simp add: from_dict_to_dict update_absent)
qed

lemma init_of_saved:
  assumes "store_ok m"
  shows "PermissionManager_init clk (storage m) =
         Returns (if storage m = NoFile then None else Some INFO, m)"
proof (cases "requests m = [] \<and> storage m = NoFile")
  case True
  then show ?thesis
    by (simp add: PermissionManager_init_def load_def)
next
  case False
  with assms have s: "storage m = storage (save m)" and d: "distinct (map fst (requests m))"
    by (auto simp: store_ok_def)
  have "load_items clk (map (\<lambda>(k, v). (k, JObj (to_dict v))) (requests m)) [] = Returns (requests m)"
    using load_items_saved [OF d, of "[]" clk] by simp
  moreover from s have "m = \<lparr>storage = Json (JObj (map (\<lambda>(k, v). (k, JObj (to_dict v))) (requests m))),
      requests = requests m\<rparr>"
    by (cases m) (simp add: save_def)
  ultimately have "PermissionManager_init clk (storage (save m)) = Returns (Some INFO, m)"
    by (simp add: PermissionManager_init_def load_def save_def)
  with s show ?thesis
    by (simp add: save_def)
qed

lemma apply_call_shape:
  "apply_call c m = m \<or> apply_call c m = clear_all m
   \<or> (\<exists>k r. apply_call c m = save (m\<lparr>requests := AList.update k r (requests m)\<rparr>))"
  by (cases c)
    (auto simp: create_request_def grant_permission_def deny_permission_def revoke_permission_def
       Let_def split: option.splits)

lemma store_ok_step:
  assumes "store_ok m"
  shows "store_ok (apply_call c m)"
proof -
  have "store_ok (clear_all m)"
    by (simp add: clear_all_def store_ok_def)
  moreover have "store_ok (save (m\<lparr>requests := AList.update k r (requests m)\<rparr>))" for k r
    using assms by (simp add: store_ok_def save_def distinct_update)
  ultimately show ?thesis
    using apply_call_shape [of c m] assms by auto
qed

lemma reachable_store_ok: "reachable m \<Longrightarrow> store_ok m"
proof (induction rule: reachable.induct)
  case reachable_fresh
  show ?case by (simp add: store_ok_def fresh_def)
next
  case (reachable_call m c)
  from store_ok_step [OF reachable_call.IH] show ?case .
qed

text \<open>
  C5. Serialising a request with \<^verbatim>\<open>to_dict\<close> and reading it back with \<^verbatim>\<open>from_dict\<close> gives
  the same request. Hence, for every manager reached from one built without a file,
  building a new manager against its file succeeds and gives the same requests, and
  \<^verbatim>\<open>list_requests\<close> without filters returns the same list, in the order of the
  dictionary.
\<close>

theorem persistence_round_trip:
  assumes "reachable m"
  shows "from_dict now_c now_u (JObj (to_dict r)) = Returns r
       \<and> (\<exists>lvl m'. PermissionManager_init clk (storage m) = Returns (lvl, m')
             \<and> requests m' = requests m
             \<and> list_requests m' None None None = list_requests m None None None
             \<and> list_requests m' None None None = map snd (requests m))"
  using init_of_saved [OF reachable_store_ok [OF assms], of clk]
  by (simp add: from_dict_to_dict list_requests_def)

theorem persistence_round_trip_witness:
  "reachable m_granted
   \<and> from_dict ''2024-02-01T00:00:00.000001+00:00'' ''2024-02-01T00:00:00.000002+00:00''
        (JObj (to_dict req_granted)) = Returns req_granted
   \<and> PermissionManager_init clock0 (storage m_granted) = Returns (Some INFO, m_granted)
   \<and> list_requests m_granted None None None = [req_granted]"
proof -
  have a: "reachable m_granted"
    unfolding m_granted_def m_pending_def by (intro reachable_run reachable_fresh)
  have b: "PermissionManager_init clock0 (storage m_granted) = Returns (Some INFO, m_granted)"
    by code_simp
  have c: "requests m_granted = [(rid1, req_granted)]"
    by code_simp
  from persistence_round_trip [OF a, of "''2024-02-01T00:00:00.000001+00:00''"
      "''2024-02-01T00:00:00.000002+00:00''" req_granted clock0] a b c
  show ?thesis
    by simp
qed

subsection \<open>Request identifiers\<close>

lemma digit_char_cases:
  assumes "d < 10"
  shows "d = 0 \<or> d = 1 \<or> d = 2 \<or> d = 3 \<or> d = 4 \<or> d = 5 \<or> d = 6 \<or> d = 7 \<or> d = 8 \<or> d = (9::nat)"
  using assms by arith

lemma digit_val_digit_char: "d < 10 \<Longrightarrow> digit_val (digit_char d) = d"
  using digit_char_cases [of d] by (auto simp: digit_val_def digit_char_def)

lemma digit_char_not_dash: "d < 10 \<Longrightarrow> digit_char d \<noteq> CHR ''-''"
  using digit_char_cases [of d] by (auto simp: digit_char_def)

lemma str_val_snoc: "str_val (s @ [c]) = 10 * str_val s + digit_val c"
  by (simp add: str_val_def)

lemma str_val_dec: "str_val (dec n) = n"
proof (induction n rule: dec.induct)
  case (1 n)
  show ?case
  proof (cases "n < 10")
    case True
    then show ?thesis
      by (simp add: dec.simps [of n] str_val_def digit_val_digit_char)
  next
    case False
    with 1 have "str_val (dec (n div 10)) = n div 10" by simp
    with False show ?thesis
      by (simp add: dec.simps [of n] str_val_snoc digit_val_digit_char)
  qed
qed

lemma dec_no_dash: "CHR ''-'' \<notin> set (dec n)"
proof (induction n rule: dec.induct)
  case (1 n)
  show ?case
  proof (cases "n < 10")
    case True
    then show ?thesis
      using digit_char_not_dash [of n] by (auto simp: dec.simps [of n])
  next
    case False
    with 1 have "CHR ''-'' \<notin> set (dec (n div 10))" by simp
    with False show ?thesis
      using digit_char_not_dash [of "n mod 10"] by (auto simp: dec.simps [of n])
  qed
qed

lemma str_val_zero: "str_val (CHR ''0'' # s) = str_val s"
  by (simp add: str_val_def digit_val_def)

lemma str_val_zeros: "str_val (replicate k CHR ''0'' @ s) = str_val s"
  by (induction k) (simp_all add: str_val_zero)

lemma str_val_format: "str_val (format_04d n) = n"
  by (simp add: format_04d_def str_val_zeros str_val_dec)

lemma format_no_dash: "CHR ''-'' \<notin> set (format_04d n)"
  using dec_no_dash [of n] by (auto simp: format_04d_def)

lemma after_last_dash:
  assumes "x @ CHR ''-'' # a = y @ CHR ''-'' # b" and "CHR ''-'' \<notin> set a" and "CHR ''-'' \<notin> set b"
  shows "a = b"
proof -
  have "rev a @ CHR ''-'' # rev x = rev b @ CHR ''-'' # rev y"
    using arg_cong [OF assms(1), of rev] by simp
  then have "takeWhile (\<lambda>c. c \<noteq> CHR ''-'') (rev a @ CHR ''-'' # rev x) =
             takeWhile (\<lambda>c. c \<noteq> CHR ''-'') (rev b @ CHR ''-'' # rev y)"
    by simp
  moreover have "takeWhile (\<lambda>c. c \<noteq> CHR ''-'') (rev a @ CHR ''-'' # rev x) = rev a"
    using assms(2) by (auto simp: takeWhile_tail takeWhile_eq_all_conv)
  moreover have "takeWhile (\<lambda>c. c \<noteq> CHR ''-'') (rev b @ CHR ''-'' # rev y) = rev b"
    using assms(3) by (auto simp: takeWhile_tail takeWhile_eq_all_conv)
  ultimately show ?thesis by simp
qed

lemma request_id_count:
  assumes "''PR-'' @ s @ ''-'' @ format_04d i = ''PR-'' @ t @ ''-'' @ format_04d j"
  shows "i = j"
proof -
  from assms have "s @ CHR ''-'' # format_04d i = t @ CHR ''-'' # format_04d j"
    by simp
  then have "format_04d i = format_04d j"
    by (rule after_last_dash [OF _ format_no_dash format_no_dash])
  then have "str_val (format_04d i) = str_val (format_04d j)" by simp
  then show ?thesis by (simp add: str_val_format)
qed

lemma ids_ok_fresh_id:
  assumes "ids_ok (map fst (requests m))"
  shows "generate_request_id m stamp \<notin> fst ` set (requests m)"
proof
  assume "generate_request_id m stamp \<in> fst ` set (requests m)"
  then have "generate_request_id m stamp \<in> set (map fst (requests m))" by simp
  then obtain i where i: "i < length (map fst (requests m))"
      "map fst (requests m) ! i = generate_request_id m stamp"
    unfolding in_set_conv_nth by blast
  from assms i(1) have "\<exists>t. map fst (requests m) ! i = ''PR-'' @ t @ ''-'' @ format_04d (Suc i)"
    unfolding ids_ok_def by blast
  with i(2) obtain t where "generate_request_id m stamp = ''PR-'' @ t @ ''-'' @ format_04d (Suc i)"
    by auto
  then have "length (requests m) + 1 = Suc i"
    unfolding generate_request_id_def by (rule request_id_count)
  with i(1) show False by simp
qed

lemma ids_ok_snoc:
  assumes "ids_ok ks"
  shows "ids_ok (ks @ [''PR-'' @ stamp @ ''-'' @ format_04d (length ks + 1)])"
  unfolding ids_ok_def
proof (intro allI impI)
  fix i assume "i < length (ks @ [''PR-'' @ stamp @ ''-'' @ format_04d (length ks + 1)])"
  then consider "i < length ks" | "i = length ks" by fastforce
  then show "\<exists>s. (ks @ [''PR-'' @ stamp @ ''-'' @ format_04d (length ks + 1)]) ! i =
        ''PR-'' @ s @ ''-'' @ format_04d (Suc i)"
  proof cases
    case 1
    with assms show ?thesis by (simp add: ids_ok_def nth_append)
  next
    case 2
    then show ?thesis by (simp add: nth_append)
  qed
qed


lemma keys_create:
  assumes "ids_ok (map fst (requests m))"
  shows "map fst (requests (snd (create_request m rq ds p nts stamp now_c now_u))) =
         map fst (requests m) @ [generate_request_id m stamp]"
  using ids_ok_fresh_id [OF assms, of stamp]
  by (simp add: create_request_def Let_def save_def update_absent)

lemma keys_transition:
  "map fst (requests (snd (grant_permission m rid actor nts now))) = map fst (requests m)"
  "map fst (requests (snd (deny_permission m rid actor nts now))) = map fst (requests m)"
  "map fst (requests (snd (revoke_permission m rid actor nts now))) = map fst (requests m)"
  by (auto simp: grant_permission_def deny_permission_def revoke_permission_def Let_def save_def
        keys_update_present split: option.splits)

lemma ids_ok_step:
  assumes "ids_ok (map fst (requests m))"
  shows "ids_ok (map fst (requests (apply_call c m)))"
proof (cases c)
  case (Create rq ds p nts stamp now_c now_u)
  have "ids_ok (map fst (requests m) @ [generate_request_id m stamp])"
    using ids_ok_snoc [OF assms, of stamp] by (simp add: generate_request_id_def)
  with Create show ?thesis
    by (simp add: keys_create [OF assms])
next
  case ClearAll
  then show ?thesis by (simp add: clear_all_def ids_ok_def)
qed (simp_all add: keys_transition assms)

lemma reachable_ids_ok: "reachable m \<Longrightarrow> ids_ok (map fst (requests m))"
proof (induction rule: reachable.induct)
  case reachable_fresh
  show ?case by (simp add: fresh_def ids_ok_def)
next
  case (reachable_call m c)
  from ids_ok_step [OF reachable_call.IH] show ?case .
qed

lemma keys_grow: "c \<noteq> ClearAll \<Longrightarrow> fst ` set (requests m) \<subseteq> fst ` set (requests (apply_call c m))"
proof (cases c)
  case (Create rq ds p nts stamp now_c now_u)
  then show ?thesis
    by (auto simp: create_request_def Let_def save_def dom_update)
next
  case (Grant rid actor nts now)
  have "set (map fst (requests (apply_call c m))) = set (map fst (requests m))"
    using Grant by (simp add: keys_transition)
  then show ?thesis by simp
next
  case (Deny rid actor nts now)
  have "set (map fst (requests (apply_call c m))) = set (map fst (requests m))"
    using Deny by (simp add: keys_transition)
  then show ?thesis by simp
next
  case (Revoke rid actor nts now)
  have "set (map fst (requests (apply_call c m))) = set (map fst (requests m))"
    using Revoke by (simp add: keys_transition)
  then show ?thesis by simp
qed simp

lemma keys_grow_run:
  "ClearAll \<notin> set cs \<Longrightarrow> fst ` set (requests m) \<subseteq> fst ` set (requests (run cs m))"
proof (induction cs arbitrary: m)
  case Nil
  then show ?case by simp
next
  case (Cons c cs)
  then have "fst ` set (requests m) \<subseteq> fst ` set (requests (apply_call c m))"
    using keys_grow [of c m] by auto
  moreover from Cons have "fst ` set (requests (apply_call c m)) \<subseteq> fst ` set (requests (run cs (apply_call c m)))"
    by simp
  ultimately show ?case by simp
qed

text \<open>
  C4, as the code has it. Take a manager reached from one built without a file, and any
  further calls without \<^verbatim>\<open>clear_all\<close>. The identifier that \<^verbatim>\<open>create_request\<close> then returns
  is none of the identifiers stored at that moment, and none of those stored at the
  earlier moment: an identifier is never issued twice between two calls of
  \<^verbatim>\<open>clear_all\<close>.
\<close>

theorem created_id_unused:
  assumes "reachable m" and "ClearAll \<notin> set cs"
  shows "request_id (fst (create_request (run cs m) rq ds p nts stamp now_c now_u))
           \<notin> fst ` set (requests (run cs m))
       \<and> request_id (fst (create_request (run cs m) rq ds p nts stamp now_c now_u))
           \<notin> fst ` set (requests m)"
proof -
  have "ids_ok (map fst (requests (run cs m)))"
    using assms(1) by (intro reachable_ids_ok reachable_run)
  then have "generate_request_id (run cs m) stamp \<notin> fst ` set (requests (run cs m))"
    by (rule ids_ok_fresh_id)
  moreover have "request_id (fst (create_request (run cs m) rq ds p nts stamp now_c now_u)) =
      generate_request_id (run cs m) stamp"
    by (simp add: create_request_def Let_def)
  ultimately show ?thesis
    using keys_grow_run [OF assms(2), of m] by auto
qed

theorem created_id_unused_witness:
  "reachable m_pending \<and> ClearAll \<notin> set [create_alice2]
   \<and> request_id (fst (create_request (run [create_alice2] m_pending) ''bob'' OPENAQ_KAGGLE ''study'' None
         ''20240101000000'' ''2024-01-01T00:00:00.000005+00:00'' ''2024-01-01T00:00:00.000006+00:00''))
       \<notin> fst ` set (requests m_pending)"
proof -
  have a: "reachable m_pending"
    unfolding m_pending_def by (intro reachable_run reachable_fresh)
  have b: "ClearAll \<notin> set [create_alice2]"
    by (simp add: create_alice2_def)
  from created_id_unused [OF a b] a b show ?thesis
    by simp
qed

text \<open>
  C4 as stated fails across \<^verbatim>\<open>clear_all\<close>: the counter is the size of the dictionary, so
  after a reset a create within the same second returns the identifier that was
  stored before the reset.
\<close>

theorem clear_all_reuse_counterexample:
  "request_id (fst (create_request fresh ''alice'' WORLD_BANK_API ''research'' (Some ''first'')
       ''20240101000000'' ''2024-01-01T00:00:00.000001+00:00'' ''2024-01-01T00:00:00.000002+00:00'')) = rid1
   \<and> get_request (run [create_alice] fresh) rid1 = Some req_alice
   \<and> request_id (fst (create_request (run [create_alice, ClearAll] fresh) ''bob'' OPENAQ_KAGGLE ''study'' None
       ''20240101000000'' ''2024-01-01T00:00:00.500001+00:00'' ''2024-01-01T00:00:00.500002+00:00'')) = rid1"
  by code_simp

subsection \<open>Terminal states\<close>








end
